theory Spec2Isabelle
  imports Main "HOL-Library.AList"
begin

section \<open>The users plugin of onebot: data model\<close>

text \<open>
  The development follows \<^verbatim>\<open>onebot/plugins/users.py\<close>. Mutation of the plugin
  object is explicit state passing; a Python exception is a value of type \<open>error\<close>,
  returned together with the plugin state at the moment of the raise, because the
  attributes assigned before the raise stay assigned on the plugin object.

  What is left out: the calls of \<^verbatim>\<open>self.bot.log.debug\<close> (they write to the bot's
  logger, not to the plugin). A mask that irc3 hands to a handler is given by the two
  properties the plugin reads, \<^verbatim>\<open>.nick\<close> and \<^verbatim>\<open>.host\<close>; the one mask the plugin
  builds itself, in \<^verbatim>\<open>on_who\<close>, is split as irc3 splits it.
\<close>

datatype error = KeyError | ValueError

record mask =
  mask_nick :: string
  mask_host :: string

text \<open>
  Class \<^verbatim>\<open>User\<close>. The attribute \<^verbatim>\<open>database\<close> is a reference to the bot's
  database object, shared by all users; the settings functions below take the
  collection it points to as an argument.
\<close>

record User =
  user_nick :: string
  user_host :: string
  user_channels :: "string set"
  user_id :: string

text \<open>
  \<^verbatim>\<open>User.__init__\<close>: the plugin always passes a list of channels, so the two
  \<^verbatim>\<open>ValueError\<close> branches (a string, a non-iterable) are excluded by the type.
\<close>

definition User_init :: "mask \<Rightarrow> string list \<Rightarrow> string \<Rightarrow> User" where
  "User_init m chans ident =
     \<lparr>user_nick = mask_nick m, user_host = mask_host m,
      user_channels = set chans, user_id = ident\<rparr>"

text \<open>The \<^verbatim>\<open>users\<close> collection, read with \<^verbatim>\<open>find_one({'id': ...})\<close>.\<close>

type_synonym 'v document = "string \<rightharpoonup> 'v"
type_synonym 'v users_collection = "string \<rightharpoonup> 'v document"

definition getid :: "User \<Rightarrow> string" where
  "getid u = user_id u"

definition get_settings :: "'v users_collection \<Rightarrow> User \<Rightarrow> 'v document option" where
  "get_settings users u = users (user_id u)"

definition get_setting :: "'v users_collection \<Rightarrow> User \<Rightarrow> string \<Rightarrow> 'v \<Rightarrow> 'v" where
  "get_setting users u setting dflt =
     (case get_settings users u of
        Some doc \<Rightarrow> (case doc setting of Some v \<Rightarrow> v | None \<Rightarrow> dflt)
      | None \<Rightarrow> dflt)"

definition user_join :: "User \<Rightarrow> string \<Rightarrow> User" where
  "user_join u channel = u\<lparr>user_channels := insert channel (user_channels u)\<rparr>"

text \<open>\<^verbatim>\<open>set.remove\<close> raises \<^verbatim>\<open>KeyError\<close> when the element is missing.\<close>

definition user_part :: "User \<Rightarrow> string \<Rightarrow> error + User" where
  "user_part u channel =
     (if channel \<in> user_channels u
      then Inr (u\<lparr>user_channels := user_channels u - {channel}\<rparr>)
      else Inl KeyError)"

definition still_in_channels :: "User \<Rightarrow> bool" where
  "still_in_channels u \<longleftrightarrow> user_channels u \<noteq> {}"

text \<open>
  The bot, as far as the plugin reads it: its own nick and the option
  \<^verbatim>\<open>identify_by\<close> of the plugin's configuration section (\<open>None\<close> when the option or
  the whole section is missing).
\<close>

record Bot =
  bot_nick :: string
  identify_by :: "string option"

text \<open>
  Class \<^verbatim>\<open>UsersPlugin\<close>. \<^verbatim>\<open>active_users\<close> is a Python dict, which keeps insertion
  order, and the loop of \<^verbatim>\<open>part\<close> iterates over it: an association list, with
  \<open>AList.update\<close> for \<^verbatim>\<open>d[k] = v\<close> (in place for a present key, appended for a new
  one), \<open>AList.delete\<close> for \<^verbatim>\<open>del d[k]\<close> and \<open>map_of\<close> for lookup.
\<close>

record UsersPlugin =
  irc_bot :: Bot
  identifying_method :: string
  channels :: "string set"
  active_users :: "(string \<times> User) list"

type_synonym result = "(error \<times> UsersPlugin) + UsersPlugin"

definition connection_lost :: "UsersPlugin \<Rightarrow> UsersPlugin" where
  "connection_lost self = self\<lparr>channels := {}, active_users := []\<rparr>"

text \<open>
  \<^verbatim>\<open>__init__\<close> stores the configured method, with default \<^verbatim>\<open>'mask'\<close>, and calls
  \<^verbatim>\<open>connection_lost\<close>, which assigns the two containers. No statement of it raises;
  the result type has an error side so that this can be said.
\<close>

definition UsersPlugin_init :: "Bot \<Rightarrow> error + UsersPlugin" where
  "UsersPlugin_init b =
     Inr (connection_lost
       \<lparr>irc_bot = b,
        identifying_method = (case identify_by b of None \<Rightarrow> ''mask'' | Some v \<Rightarrow> v),
        channels = {}, active_users = []\<rparr>)"

definition get_user :: "UsersPlugin \<Rightarrow> string \<Rightarrow> User option" where
  "get_user self nick = map_of (active_users self) nick"

definition create_user :: "UsersPlugin \<Rightarrow> mask \<Rightarrow> string list \<Rightarrow> error + User" where
  "create_user self m chans =
     (if identifying_method self = ''mask''
      then Inr (User_init m chans (mask_host m))
      else Inl ValueError)"

section \<open>The event handlers\<close>

definition on_new_nick :: "mask \<Rightarrow> string \<Rightarrow> UsersPlugin \<Rightarrow> UsersPlugin" where
  "on_new_nick nick new_nick self =
     (case map_of (active_users self) (mask_nick nick) of
        None \<Rightarrow> self
      | Some user \<Rightarrow>
          (let user' = user\<lparr>user_nick := new_nick\<rparr>;
               s1 = self\<lparr>active_users :=
                      AList.update (mask_nick nick) user' (active_users self)\<rparr>;
               s2 = s1\<lparr>active_users := AList.update new_nick user' (active_users s1)\<rparr>
           in s2\<lparr>active_users := AList.delete (mask_nick nick) (active_users s2)\<rparr>))"

definition on_privmsg :: "mask \<Rightarrow> string \<Rightarrow> UsersPlugin \<Rightarrow> result" where
  "on_privmsg m target self =
     (if target \<notin> channels self then Inr self
      else case map_of (active_users self) (mask_nick m) of
        None \<Rightarrow>
          (case create_user self m [target] of
             Inl e \<Rightarrow> Inl (e, self)
           | Inr u \<Rightarrow>
               Inr (self\<lparr>active_users := AList.update (mask_nick m) u (active_users self)\<rparr>))
      | Some u \<Rightarrow>
          Inr (self\<lparr>active_users :=
                 AList.update (mask_nick m) (user_join u target) (active_users self)\<rparr>))"

definition join :: "string \<Rightarrow> mask \<Rightarrow> string \<Rightarrow> UsersPlugin \<Rightarrow> result" where
  "join nick m channel self =
     (let s1 = self\<lparr>channels := insert channel (channels self)\<rparr> in
      case (case map_of (active_users s1) nick of
              None \<Rightarrow>
                (case create_user s1 m [channel] of
                   Inl e \<Rightarrow> Inl (e, s1)
                 | Inr u \<Rightarrow> Inr (s1\<lparr>active_users := AList.update nick u (active_users s1)\<rparr>))
            | Some _ \<Rightarrow> Inr s1) of
        Inl err \<Rightarrow> Inl err
      | Inr s2 \<Rightarrow>
          (case map_of (active_users s2) nick of
             None \<Rightarrow> Inl (KeyError, s2)
           | Some u \<Rightarrow>
               Inr (s2\<lparr>active_users :=
                      AList.update nick (user_join u channel) (active_users s2)\<rparr>)))"

definition quit :: "string \<Rightarrow> mask \<Rightarrow> UsersPlugin \<Rightarrow> UsersPlugin" where
  "quit nick m self =
     (let s1 = (if nick = bot_nick (irc_bot self) then connection_lost self else self) in
      case map_of (active_users s1) nick of
        None \<Rightarrow> s1
      | Some _ \<Rightarrow> s1\<lparr>active_users := AList.delete nick (active_users s1)\<rparr>)"

text \<open>
  The loop of \<^verbatim>\<open>part\<close> for the bot's own nick. It runs over a copy of the dict taken
  before the loop; \<open>user\<close> is the object that the live dict holds under \<open>n\<close>, so
  \<^verbatim>\<open>user.part\<close> is written back under \<open>n\<close>. The last statement of the body,
  \<^verbatim>\<open>self.channels.remove(kwargs['channel'])\<close>, is inside the loop and raises
  \<^verbatim>\<open>KeyError\<close> when the channel is not in the set.
\<close>

fun part_loop :: "string \<Rightarrow> (string \<times> User) list \<Rightarrow> UsersPlugin \<Rightarrow> result" where
  "part_loop channel [] self = Inr self"
| "part_loop channel ((n, user) # items) self =
     (case user_part user channel of
        Inl e \<Rightarrow> Inl (e, self)
      | Inr user' \<Rightarrow>
          (let s1 = self\<lparr>active_users := AList.update n user' (active_users self)\<rparr>;
               s2 = (if \<not> still_in_channels user'
                     then s1\<lparr>active_users := AList.delete n (active_users s1)\<rparr>
                     else s1)
           in if channel \<in> channels s2
              then part_loop channel items (s2\<lparr>channels := channels s2 - {channel}\<rparr>)
              else Inl (KeyError, s2)))"

definition part :: "string \<Rightarrow> mask \<Rightarrow> string \<Rightarrow> UsersPlugin \<Rightarrow> result" where
  "part nick m channel self =
     (case (if nick = bot_nick (irc_bot self)
            then part_loop channel (active_users self) self
            else Inr self) of
        Inl err \<Rightarrow> Inl err
      | Inr s1 \<Rightarrow>
          (case map_of (active_users s1) nick of
             None \<Rightarrow> Inr s1
           | Some u \<Rightarrow>
               (case user_part u channel of
                  Inl e \<Rightarrow> Inl (e, s1)
                | Inr u' \<Rightarrow>
                    (let s2 = s1\<lparr>active_users := AList.update nick u' (active_users s1)\<rparr>
                     in if \<not> still_in_channels u'
                        then Inr (s2\<lparr>active_users := AList.delete nick (active_users s2)\<rparr>)
                        else Inr s2))))"

definition on_kick :: "mask \<Rightarrow> mask \<Rightarrow> string \<Rightarrow> UsersPlugin \<Rightarrow> result" where
  "on_kick m target channel self = part (mask_nick target) target channel self"

text \<open>
  \<^verbatim>\<open>on_who\<close> builds the mask as an \<^verbatim>\<open>IrcString\<close> from the text made of \<open>nick\<close>, an
  exclamation mark, \<open>username\<close>, an at sign and \<open>server\<close>. For a text with an
  exclamation mark, irc3 splits at the first one: \<^verbatim>\<open>.nick\<close> is the text before it
  and \<^verbatim>\<open>.host\<close> the text after it. The key in \<^verbatim>\<open>active_users\<close> is the argument
  \<open>nick\<close> itself.
\<close>

definition IrcString :: "string \<Rightarrow> mask" where
  "IrcString s =
     \<lparr>mask_nick = takeWhile (\<lambda>c. c \<noteq> CHR ''!'') s,
      mask_host = tl (dropWhile (\<lambda>c. c \<noteq> CHR ''!'') s)\<rparr>"

definition on_who :: "string \<Rightarrow> string \<Rightarrow> string \<Rightarrow> string \<Rightarrow> UsersPlugin \<Rightarrow> result" where
  "on_who channel nick username server self =
     (if channel \<notin> channels self then Inr self
      else case map_of (active_users self) nick of
        None \<Rightarrow>
          (let m = IrcString (nick @ ''!'' @ username @ ''@'' @ server) in
           case create_user self m [channel] of
             Inl e \<Rightarrow> Inl (e, self)
           | Inr u \<Rightarrow> Inr (self\<lparr>active_users := AList.update nick u (active_users self)\<rparr>))
      | Some u \<Rightarrow>
          Inr (self\<lparr>active_users :=
                 AList.update nick (user_join u channel) (active_users self)\<rparr>))"

text \<open>
  \<^verbatim>\<open>on_join_part_quit\<close> calls the method named by the event with the nick of the
  mask.
\<close>

datatype jpq = JOIN | PART | QUIT

definition on_join_part_quit :: "mask \<Rightarrow> jpq \<Rightarrow> string \<Rightarrow> UsersPlugin \<Rightarrow> result" where
  "on_join_part_quit m event channel self =
     (case event of
        JOIN \<Rightarrow> join (mask_nick m) m channel self
      | PART \<Rightarrow> part (mask_nick m) m channel self
      | QUIT \<Rightarrow> Inr (quit (mask_nick m) m self))"

section \<open>Sequences of events\<close>

text \<open>
  The entry points that irc3 calls: the five decorated event handlers and
  \<^verbatim>\<open>connection_lost\<close>. The plugin object outlives a handler that raised, so the next
  event finds the attributes as the raise left them: \<open>state_of\<close> reads the state out
  of either outcome.
\<close>

datatype event =
    JoinPartQuit mask jpq string
  | Kick mask mask string
  | NewNick mask string
  | Privmsg mask string
  | Who string string string string
  | ConnectionLost

fun state_of :: "result \<Rightarrow> UsersPlugin" where
  "state_of (Inl (e, s)) = s"
| "state_of (Inr s) = s"

fun handle :: "event \<Rightarrow> UsersPlugin \<Rightarrow> result" where
  "handle (JoinPartQuit m ev channel) self = on_join_part_quit m ev channel self"
| "handle (Kick m target channel) self = on_kick m target channel self"
| "handle (NewNick nick new_nick) self = Inr (on_new_nick nick new_nick self)"
| "handle (Privmsg m target) self = on_privmsg m target self"
| "handle (Who channel nick username server) self = on_who channel nick username server self"
| "handle ConnectionLost self = Inr (connection_lost self)"

fun run :: "UsersPlugin \<Rightarrow> event list \<Rightarrow> UsersPlugin" where
  "run self [] = self"
| "run self (ev # evs) = run (state_of (handle ev self)) evs"

text \<open>
  The containment invariant of the two containers: every channel in the channel set
  of a tracked user is a tracked channel.
\<close>

definition channel_containment :: "UsersPlugin \<Rightarrow> bool" where
  "channel_containment self \<longleftrightarrow>
     (\<forall>(n, u) \<in> set (active_users self). user_channels u \<subseteq> channels self)"

text \<open>
  The events that run the loop of \<^verbatim>\<open>part\<close>: a part or a kick of the bot's own nick.
  A sequence of events is \<open>clean\<close> from a state when none of its own parts raises.
\<close>

fun own_part :: "event \<Rightarrow> UsersPlugin \<Rightarrow> bool" where
  "own_part (JoinPartQuit m PART channel) self \<longleftrightarrow> mask_nick m = bot_nick (irc_bot self)"
| "own_part (Kick m target channel) self \<longleftrightarrow> mask_nick target = bot_nick (irc_bot self)"
| "own_part ev self \<longleftrightarrow> False"

fun clean :: "UsersPlugin \<Rightarrow> event list \<Rightarrow> bool" where
  "clean self [] \<longleftrightarrow> True"
| "clean self (ev # evs) \<longleftrightarrow>
     (\<not> (own_part ev self \<and> isl (handle ev self))) \<and> clean (state_of (handle ev self)) evs"

section \<open>Example data\<close>

definition onebot :: Bot where
  "onebot = \<lparr>bot_nick = ''onebot'', identify_by = None\<rparr>"

definition mk_mask :: "string \<Rightarrow> mask" where
  "mk_mask n = \<lparr>mask_nick = n, mask_host = ''~'' @ n @ ''@example.org''\<rparr>"

definition mk_user :: "string \<Rightarrow> string list \<Rightarrow> User" where
  "mk_user n chans = User_init (mk_mask n) chans (mask_host (mk_mask n))"

definition mk_plugin :: "string set \<Rightarrow> (string \<times> User) list \<Rightarrow> UsersPlugin" where
  "mk_plugin chans users =
     \<lparr>irc_bot = onebot, identifying_method = ''mask'', channels = chans,
      active_users = users\<rparr>"

section \<open>Auxiliary facts\<close>

text \<open>For a nick without an exclamation mark the mask of \<^verbatim>\<open>on_who\<close> has that nick.\<close>

lemma IrcString_who:
  assumes "CHR ''!'' \<notin> set nick"
  shows "IrcString (nick @ ''!'' @ username @ ''@'' @ server)
     = \<lparr>mask_nick = nick, mask_host = username @ ''@'' @ server\<rparr>"
proof -
  from assms have all: "\<forall>c \<in> set nick. c \<noteq> CHR ''!''" by auto
  then have "takeWhile (\<lambda>c. c \<noteq> CHR ''!'') nick = nick"
    and "dropWhile (\<lambda>c. c \<noteq> CHR ''!'') nick = []"
    by simp_all
  then show ?thesis
    by (simp add: IrcString_def takeWhile_tail dropWhile_append3)
qed

lemma user_part_error: "user_part u c = Inl e \<Longrightarrow> e = KeyError"
  by (simp add: user_part_def split: if_splits)

text \<open>
  The loop, started with a tracked user \<open>d\<close> that is not in the channel: it raises,
  at the latest in the iteration of \<open>d\<close>, and the record of \<open>d\<close> is as before.
\<close>

lemma part_loop_absent_channel:
  "map_of items d = Some u \<Longrightarrow> c \<notin> user_channels u \<Longrightarrow>
   map_of (active_users s) d = Some u \<Longrightarrow>
   \<exists>s'. part_loop c items s = Inl (KeyError, s') \<and> map_of (active_users s') d = Some u"
proof (induction items arbitrary: s)
  case Nil
  then show ?case by simp
next
  case (Cons p items)
  obtain n user where p: "p = (n, user)" by (cases p)
  show ?case
  proof (cases "n = d")
    case True
    with Cons.prems p have "user = u" by simp
    with Cons.prems p show ?thesis by (simp add: user_part_def)
  next
    case False
    with Cons.prems p have items: "map_of items d = Some u" by simp
    show ?thesis
    proof (cases "user_part user c")
      case (Inl e)
      with Cons.prems p show ?thesis by (auto dest: user_part_error)
    next
      case (Inr user')
      define s2 where
        "s2 = (let s1 = s\<lparr>active_users := AList.update n user' (active_users s)\<rparr>
               in if \<not> still_in_channels user'
                  then s1\<lparr>active_users := AList.delete n (active_users s1)\<rparr>
                  else s1)"
      have live: "map_of (active_users s2) d = Some u"
        using False Cons.prems(3) by (simp add: s2_def Let_def update_conv')
      then have live': "map_of (active_users (s2\<lparr>channels := channels s2 - {c}\<rparr>)) d = Some u"
        by simp
      show ?thesis
      proof (cases "c \<in> channels s2")
        case True
        from Cons.IH [OF items Cons.prems(2) live'] True Inr p
        show ?thesis by (simp add: s2_def Let_def)
      next
        case False
        with Inr p live show ?thesis by (auto simp add: s2_def Let_def)
      qed
    qed
  qed
qed

text \<open>
  Channel containment is kept by every handler, whether it returns or raises, except
  by a part of the bot's own nick that raises; so it holds after every clean sequence
  of events from the empty state.
\<close>

lemma set_update_subset: "set (AList.update k v al) \<subseteq> insert (k, v) (set al)"
  by (induction al) auto

lemma set_delete_subset: "set (AList.delete k al) \<subseteq> set al"
  by (auto simp add: AList.delete_eq)

lemma containment_update:
  "channel_containment self \<Longrightarrow> user_channels v \<subseteq> channels self \<Longrightarrow>
   channel_containment (self\<lparr>active_users := AList.update k v (active_users self)\<rparr>)"
  using set_update_subset [of k v "active_users self"]
  by (auto simp add: channel_containment_def)

lemma containment_delete:
  "channel_containment self \<Longrightarrow>
   channel_containment (self\<lparr>active_users := AList.delete k (active_users self)\<rparr>)"
  using set_delete_subset [of k "active_users self"]
  by (auto simp add: channel_containment_def)

lemma containment_lookup:
  "channel_containment self \<Longrightarrow> map_of (active_users self) k = Some u \<Longrightarrow>
   user_channels u \<subseteq> channels self"
  by (auto simp add: channel_containment_def dest!: map_of_SomeD)

lemma containment_more_channels:
  "channel_containment self \<Longrightarrow>
   channel_containment (self\<lparr>channels := insert c (channels self)\<rparr>)"
  by (auto simp add: channel_containment_def)

lemma connection_lost_containment: "channel_containment (connection_lost self)"
  by (simp add: channel_containment_def connection_lost_def)

lemma on_new_nick_containment:
  assumes "channel_containment self"
  shows "channel_containment (on_new_nick nick new_nick self)"
proof (cases "map_of (active_users self) (mask_nick nick)")
  case None
  with assms show ?thesis by (simp add: on_new_nick_def)
next
  case (Some user)
  define user' where "user' = user\<lparr>user_nick := new_nick\<rparr>"
  from containment_lookup [OF assms Some]
  have sub: "user_channels user' \<subseteq> channels self" by (simp add: user'_def)
  define s1 where "s1 = self\<lparr>active_users := AList.update (mask_nick nick) user' (active_users self)\<rparr>"
  have c1: "channel_containment s1" unfolding s1_def by (rule containment_update [OF assms sub])
  have ch1: "channels s1 = channels self" by (simp add: s1_def)
  define s2 where "s2 = s1\<lparr>active_users := AList.update new_nick user' (active_users s1)\<rparr>"
  have c2: "channel_containment s2" unfolding s2_def
    by (rule containment_update [OF c1]) (simp add: ch1 sub)
  have "on_new_nick nick new_nick self
      = s2\<lparr>active_users := AList.delete (mask_nick nick) (active_users s2)\<rparr>"
    using Some by (simp add: on_new_nick_def Let_def s2_def s1_def user'_def)
  with containment_delete [OF c2] show ?thesis by simp
qed

lemma quit_containment:
  assumes "channel_containment self"
  shows "channel_containment (quit nick m self)"
proof -
  define s1 where "s1 = (if nick = bot_nick (irc_bot self) then connection_lost self else self)"
  have c1: "channel_containment s1"
    using assms by (simp add: s1_def connection_lost_containment)
  have "quit nick m self = s1 \<or> quit nick m self = s1\<lparr>active_users := AList.delete nick (active_users s1)\<rparr>"
    by (simp add: quit_def Let_def s1_def split: option.splits)
  with c1 containment_delete [OF c1] show ?thesis by auto
qed

lemma on_privmsg_containment:
  assumes "channel_containment self"
  shows "channel_containment (state_of (on_privmsg m target self))"
proof (cases "target \<in> channels self")
  case False
  with assms show ?thesis by (simp add: on_privmsg_def)
next
  case True
  show ?thesis
  proof (cases "map_of (active_users self) (mask_nick m)")
    case None
    with True assms show ?thesis
      by (auto simp add: on_privmsg_def create_user_def User_init_def
          intro!: containment_update)
  next
    case (Some u)
    from containment_lookup [OF assms Some] True
    have "user_channels (user_join u target) \<subseteq> channels self"
      by (simp add: user_join_def)
    from containment_update [OF assms this] True Some show ?thesis
      by (simp add: on_privmsg_def)
  qed
qed

lemma on_who_containment:
  assumes "channel_containment self"
  shows "channel_containment (state_of (on_who channel nick username server self))"
proof (cases "channel \<in> channels self")
  case False
  with assms show ?thesis by (simp add: on_who_def)
next
  case True
  show ?thesis
  proof (cases "map_of (active_users self) nick")
    case None
    with True assms show ?thesis
      by (auto simp add: on_who_def create_user_def User_init_def Let_def
          intro!: containment_update)
  next
    case (Some u)
    from containment_lookup [OF assms Some] True
    have "user_channels (user_join u channel) \<subseteq> channels self"
      by (simp add: user_join_def)
    from containment_update [OF assms this] True Some show ?thesis
      by (simp add: on_who_def)
  qed
qed

lemma join_containment:
  assumes "channel_containment self"
  shows "channel_containment (state_of (join nick m channel self))"
proof -
  define s1 where "s1 = self\<lparr>channels := insert channel (channels self)\<rparr>"
  have c1: "channel_containment s1"
    unfolding s1_def by (rule containment_more_channels [OF assms])
  have in1: "channel \<in> channels s1" by (simp add: s1_def)
  show ?thesis
  proof (cases "map_of (active_users self) nick")
    case (Some u)
    then have look: "map_of (active_users s1) nick = Some u" by (simp add: s1_def)
    from containment_lookup [OF c1 look] in1
    have "user_channels (user_join u channel) \<subseteq> channels s1" by (simp add: user_join_def)
    from containment_update [OF c1 this] Some show ?thesis
      by (simp add: join_def Let_def s1_def)
  next
    case None
    show ?thesis
    proof (cases "identifying_method self = ''mask''")
      case False
      with None c1 show ?thesis by (simp add: join_def Let_def create_user_def s1_def)
    next
      case True
      define u where "u = User_init m [channel] (mask_host m)"
      have sub: "user_channels u \<subseteq> channels s1" by (simp add: u_def User_init_def s1_def)
      define s2 where "s2 = s1\<lparr>active_users := AList.update nick u (active_users s1)\<rparr>"
      have c2: "channel_containment s2" unfolding s2_def by (rule containment_update [OF c1 sub])
      have look2: "map_of (active_users s2) nick = Some u" by (simp add: s2_def update_conv')
      have sub2: "user_channels (user_join u channel) \<subseteq> channels s2"
        using sub by (simp add: user_join_def s2_def s1_def)
      have "join nick m channel self
          = Inr (s2\<lparr>active_users := AList.update nick (user_join u channel) (active_users s2)\<rparr>)"
        using None True look2
        by (simp add: join_def Let_def create_user_def s1_def s2_def u_def)
      with containment_update [OF c2 sub2] show ?thesis by simp
    qed
  qed
qed

text \<open>The statements of \<^verbatim>\<open>part\<close> after the loop.\<close>

lemma part_tail_containment:
  assumes "channel_containment s1"
  shows "channel_containment (state_of
     (case map_of (active_users s1) nick of
             None \<Rightarrow> Inr s1
           | Some u \<Rightarrow>
               (case user_part u channel of
                  Inl e \<Rightarrow> Inl (e, s1)
                | Inr u' \<Rightarrow>
                    (let s2 = s1\<lparr>active_users := AList.update nick u' (active_users s1)\<rparr>
                     in if \<not> still_in_channels u'
                        then Inr (s2\<lparr>active_users := AList.delete nick (active_users s2)\<rparr>)
                        else Inr s2))))"
proof (cases "map_of (active_users s1) nick")
  case None
  with assms show ?thesis by simp
next
  case (Some u)
  show ?thesis
  proof (cases "channel \<in> user_channels u")
    case False
    with Some assms show ?thesis by (simp add: user_part_def)
  next
    case True
    define u' where "u' = u\<lparr>user_channels := user_channels u - {channel}\<rparr>"
    from containment_lookup [OF assms Some]
    have sub: "user_channels u' \<subseteq> channels s1" by (auto simp add: u'_def)
    define s2 where "s2 = s1\<lparr>active_users := AList.update nick u' (active_users s1)\<rparr>"
    have c2: "channel_containment s2" unfolding s2_def by (rule containment_update [OF assms sub])
    from c2 containment_delete [OF c2, of nick] Some True show ?thesis
      by (simp add: user_part_def Let_def s2_def u'_def)
  qed
qed

lemma part_other_containment:
  assumes "channel_containment self" and "nick \<noteq> bot_nick (irc_bot self)"
  shows "channel_containment (state_of (part nick m channel self))"
  using part_tail_containment [OF assms(1), of nick channel] assms(2)
  by (simp add: part_def)


lemma part_loop_untracked:
  "c \<notin> channels s \<Longrightarrow> items \<noteq> [] \<Longrightarrow> isl (part_loop c items s)"
  by (cases items) (auto simp add: Let_def split: sum.splits)

text \<open>
  With two or more tracked users the loop raises: either a user is not in the
  channel, or the channel is removed from the channel set a second time.
\<close>

lemma part_loop_two_users: "isl (part_loop c (p # q # items) s)"
proof -
  obtain n user where p: "p = (n, user)" by (cases p)
  show ?thesis
  proof (cases "user_part user c")
    case (Inl e)
    with p show ?thesis by simp
  next
    case (Inr user')
    define s2 where
      "s2 = (let s1 = s\<lparr>active_users := AList.update n user' (active_users s)\<rparr>
             in if \<not> still_in_channels user'
                then s1\<lparr>active_users := AList.delete n (active_users s1)\<rparr>
                else s1)"
    have "isl (part_loop c (q # items) (s2\<lparr>channels := channels s2 - {c}\<rparr>))"
      by (rule part_loop_untracked) simp_all
    with p Inr show ?thesis by (simp add: s2_def Let_def)
  qed
qed

lemma own_part_two_users:
  assumes "2 \<le> length (active_users self)"
  shows "isl (part (bot_nick (irc_bot self)) m c self)"
proof -
  from assms obtain p q items where "active_users self = p # q # items"
    by (cases "active_users self"; cases "tl (active_users self)") auto
  with part_loop_two_users [of c p q items self] show ?thesis
    by (auto simp add: part_def split: sum.splits)
qed

lemma part_loop_containment:
  assumes "channel_containment s" and "part_loop c (active_users s) s = Inr s1"
  shows "channel_containment s1"
proof (cases "active_users s")
  case Nil
  with assms show ?thesis by simp
next
  case (Cons p items)
  obtain n user where p: "p = (n, user)" by (cases p)
  from assms(1) Cons p have sub: "user_channels user \<subseteq> channels s"
    by (auto simp add: channel_containment_def)
  show ?thesis
  proof (cases "user_part user c")
    case (Inl e)
    with assms(2) Cons p show ?thesis by simp
  next
    case (Inr user')
    then have user': "user' = user\<lparr>user_channels := user_channels user - {c}\<rparr>"
      by (simp add: user_part_def split: if_splits)
    define s2 where
      "s2 = (let s1 = s\<lparr>active_users := AList.update n user' (active_users s)\<rparr>
             in if \<not> still_in_channels user'
                then s1\<lparr>active_users := AList.delete n (active_users s1)\<rparr>
                else s1)"
    define s3 where "s3 = s2\<lparr>channels := channels s2 - {c}\<rparr>"
    have out: "c \<notin> channels s3" by (simp add: s3_def)
    from assms(2) Cons p Inr
    have step: "c \<in> channels s2 \<and> part_loop c items s3 = Inr s1"
      by (simp add: s2_def s3_def Let_def split: if_splits)
    have "items = []"
    proof (rule ccontr)
      assume "items \<noteq> []"
      from part_loop_untracked [OF out this] step show False by simp
    qed
    with step have s1: "s1 = s3" by simp
    have "set (active_users s3) \<subseteq> {(n, user')}"
      using Cons p \<open>items = []\<close> by (auto simp add: s3_def s2_def Let_def)
    moreover have "user_channels user' \<subseteq> channels s3"
      using sub by (auto simp add: user' s3_def s2_def Let_def)
    ultimately show ?thesis
      unfolding s1 channel_containment_def by blast
  qed
qed

lemma part_containment:
  assumes "channel_containment self"
    and "\<not> (nick = bot_nick (irc_bot self) \<and> isl (part nick m channel self))"
  shows "channel_containment (state_of (part nick m channel self))"
proof (cases "nick = bot_nick (irc_bot self)")
  case False
  from part_other_containment [OF assms(1) this] show ?thesis .
next
  case True
  with assms(2) have ok: "\<not> isl (part nick m channel self)" by simp
  show ?thesis
  proof (cases "part_loop channel (active_users self) self")
    case (Inl err)
    with True ok show ?thesis by (simp add: part_def)
  next
    case (Inr s1)
    from part_loop_containment [OF assms(1) Inr] have "channel_containment s1" .
    from part_tail_containment [OF this, of nick channel] True [symmetric] Inr
    show ?thesis by (simp add: part_def)
  qed
qed

lemma handle_containment:
  assumes "channel_containment self" and "\<not> (own_part ev self \<and> isl (handle ev self))"
  shows "channel_containment (state_of (handle ev self))"
proof (cases ev)
  case (JoinPartQuit m e channel)
  show ?thesis
  proof (cases e)
    case JOIN
    with JoinPartQuit join_containment [OF assms(1)] show ?thesis
      by (simp add: on_join_part_quit_def)
  next
    case PART
    with JoinPartQuit assms(2)
    have "\<not> (mask_nick m = bot_nick (irc_bot self) \<and> isl (part (mask_nick m) m channel self))"
      by (simp add: on_join_part_quit_def)
    from part_containment [OF assms(1) this] PART JoinPartQuit show ?thesis
      by (simp add: on_join_part_quit_def)
  next
    case QUIT
    with JoinPartQuit quit_containment [OF assms(1)] show ?thesis
      by (simp add: on_join_part_quit_def)
  qed
next
  case (Kick m target channel)
  with assms(2)
  have "\<not> (mask_nick target = bot_nick (irc_bot self)
          \<and> isl (part (mask_nick target) target channel self))"
    by (simp add: on_kick_def)
  from part_containment [OF assms(1) this] Kick show ?thesis by (simp add: on_kick_def)
next
  case (NewNick nick new_nick)
  with on_new_nick_containment [OF assms(1)] show ?thesis by simp
next
  case (Privmsg m target)
  with on_privmsg_containment [OF assms(1)] show ?thesis by simp
next
  case (Who channel nick username server)
  with on_who_containment [OF assms(1)] show ?thesis by simp
next
  case ConnectionLost
  then show ?thesis by (simp add: connection_lost_containment)
qed

lemma run_containment:
  "channel_containment self \<Longrightarrow> clean self evs \<Longrightarrow> channel_containment (run self evs)"
proof (induction evs arbitrary: self)
  case Nil
  then show ?case by simp
next
  case (Cons ev evs)
  from Cons.prems have "\<not> (own_part ev self \<and> isl (handle ev self))"
    and rest: "clean (state_of (handle ev self)) evs" by simp_all
  from handle_containment [OF Cons.prems(1) this(1)]
  have "channel_containment (state_of (handle ev self))" .
  from Cons.IH [OF this rest] show ?case by simp
qed

lemma init_run_containment:
  "UsersPlugin_init b = Inr s0 \<Longrightarrow> clean s0 evs \<Longrightarrow> channel_containment (run s0 evs)"
proof -
  assume init: "UsersPlugin_init b = Inr s0" and cl: "clean s0 evs"
  from init have "channel_containment s0"
    by (auto simp add: UsersPlugin_init_def connection_lost_containment)
  from run_containment [OF this cl] show ?thesis .
qed

section \<open>Properties\<close>

text \<open>
  C1 (self-departure cascade). With \<open>u1\<close> in \<open>#a\<close> and \<open>u2\<close> in \<open>#a\<close> and \<open>#b\<close>, the
  bot's own part of \<open>#a\<close> leaves \<open>u1\<close> untracked, \<open>u2\<close> in \<open>#b\<close> only and \<open>#a\<close> out of
  the tracked channels, but the handler does not return: the second iteration of
  the loop removes \<open>#a\<close> from the channel set again and raises \<^verbatim>\<open>KeyError\<close>. This is
  so for either insertion order of the two users.
\<close>

theorem self_part_cascade_raises:
  "part ''onebot'' (mk_mask ''onebot'') ''#a''
     (mk_plugin {''#a'', ''#b''}
        [(''u1'', mk_user ''u1'' [''#a'']), (''u2'', mk_user ''u2'' [''#a'', ''#b''])])
   = Inl (KeyError, mk_plugin {''#b''} [(''u2'', mk_user ''u2'' [''#b''])])
   \<and> part ''onebot'' (mk_mask ''onebot'') ''#a''
     (mk_plugin {''#a'', ''#b''}
        [(''u2'', mk_user ''u2'' [''#a'', ''#b'']), (''u1'', mk_user ''u1'' [''#a''])])
   = Inl (KeyError, mk_plugin {''#b''} [(''u2'', mk_user ''u2'' [''#b''])])"
  by (simp add: part_def mk_plugin_def onebot_def mk_user_def mk_mask_def User_init_def
      user_part_def still_in_channels_def insert_Diff_if)

text \<open>
  C2 (part of a channel the user is not in). When \<open>d\<close> is tracked and the channel is
  not in the channel set of \<open>d\<close>, \<open>part\<close> raises \<^verbatim>\<open>KeyError\<close>, and in the state it
  leaves \<open>d\<close> is tracked with the record it had. When \<open>d\<close> is not the bot's own nick,
  the whole plugin state is as before the call.
\<close>

theorem part_absent_channel:
  assumes "get_user self d = Some u" and "c \<notin> user_channels u"
  shows "\<exists>s'. part d m c self = Inl (KeyError, s') \<and> get_user s' d = Some u
           \<and> (d \<noteq> bot_nick (irc_bot self) \<longrightarrow> s' = self)"
proof (cases "d = bot_nick (irc_bot self)")
  case True
  from assms have "map_of (active_users self) d = Some u" by (simp add: get_user_def)
  from part_loop_absent_channel [OF this assms(2) this]
  obtain s' where "part_loop c (active_users self) self = Inl (KeyError, s')"
    and "map_of (active_users s') d = Some u" by blast
  with True show ?thesis by (simp add: part_def get_user_def)
next
  case False
  with assms show ?thesis by (simp add: part_def get_user_def user_part_def)
qed

theorem part_absent_channel_witness:
  "get_user (mk_plugin {''#a''} [(''dave'', mk_user ''dave'' [''#a''])]) ''dave''
     = Some (mk_user ''dave'' [''#a''])
   \<and> ''#z'' \<notin> user_channels (mk_user ''dave'' [''#a''])
   \<and> ''dave'' \<noteq> bot_nick (irc_bot (mk_plugin {''#a''} [(''dave'', mk_user ''dave'' [''#a''])]))
   \<and> part ''dave'' (mk_mask ''dave'') ''#z''
        (mk_plugin {''#a''} [(''dave'', mk_user ''dave'' [''#a''])])
       = Inl (KeyError, mk_plugin {''#a''} [(''dave'', mk_user ''dave'' [''#a''])])"
  using part_absent_channel
    [of "mk_plugin {''#a''} [(''dave'', mk_user ''dave'' [''#a''])]" "''dave''"
        "mk_user ''dave'' [''#a'']" "''#z''" "mk_mask ''dave''"]
  by (auto simp add: get_user_def mk_plugin_def mk_user_def User_init_def onebot_def)

text \<open>
  C3 (when a wrong \<^verbatim>\<open>identify_by\<close> is reported), as the claim states it, fails:
  the constructor accepts the value \<^verbatim>\<open>'nickserv'\<close> and returns a plugin.
\<close>

theorem init_accepts_unknown_method:
  "UsersPlugin_init \<lparr>bot_nick = ''onebot'', identify_by = Some ''nickserv''\<rparr>
   = Inr \<lparr>irc_bot = \<lparr>bot_nick = ''onebot'', identify_by = Some ''nickserv''\<rparr>,
          identifying_method = ''nickserv'', channels = {}, active_users = []\<rparr>"
  by (simp add: UsersPlugin_init_def connection_lost_def)

text \<open>
  C3, amended. The constructor raises for no configuration: it returns a plugin in
  the empty state that holds the configured value, or \<^verbatim>\<open>'mask'\<close> when none is
  configured. \<^verbatim>\<open>'mask'\<close> is the one value accepted: under it \<open>create_user\<close> returns
  a record, and a join of an untracked nick returns with that nick tracked. For every
  other stored value the \<^verbatim>\<open>ValueError\<close> is raised at event time, by
  \<open>create_user\<close> and so by each handler call that has to create a user record: a
  join of an untracked nick (after the channel was added to the tracked channels),
  and a message or a WHO reply in a tracked channel for an untracked nick (state as
  before).
\<close>

theorem identify_by_checked_at_event_time:
  "(\<exists>s0. UsersPlugin_init b = Inr s0 \<and> irc_bot s0 = b
        \<and> identifying_method s0 = (case identify_by b of None \<Rightarrow> ''mask'' | Some v \<Rightarrow> v)
        \<and> channels s0 = {} \<and> active_users s0 = []
        \<and> (identifying_method s0 \<noteq> ''mask'' \<longrightarrow>
             join nick m c s0 = Inl (ValueError, s0\<lparr>channels := {c}\<rparr>)))
   \<and> (identifying_method self = ''mask'' \<longrightarrow>
        create_user self m chans = Inr (User_init m chans (mask_host m))
        \<and> (get_user self nick = None \<longrightarrow>
             (\<exists>s'. join nick m c self = Inr s'
                 \<and> get_user s' nick = Some (User_init m [c] (mask_host m))
                 \<and> channels s' = insert c (channels self))))
   \<and> (identifying_method self \<noteq> ''mask'' \<longrightarrow>
        create_user self m chans = Inl ValueError
        \<and> (get_user self nick = None \<longrightarrow>
             join nick m c self
               = Inl (ValueError, self\<lparr>channels := insert c (channels self)\<rparr>))
        \<and> (get_user self (mask_nick m) = None \<and> c \<in> channels self \<longrightarrow>
             on_privmsg m c self = Inl (ValueError, self))
        \<and> (get_user self nick = None \<and> c \<in> channels self \<longrightarrow>
             on_who c nick username server self = Inl (ValueError, self)))"
proof -
  have init: "\<exists>s0. UsersPlugin_init b = Inr s0 \<and> irc_bot s0 = b
        \<and> identifying_method s0 = (case identify_by b of None \<Rightarrow> ''mask'' | Some v \<Rightarrow> v)
        \<and> channels s0 = {} \<and> active_users s0 = []
        \<and> (identifying_method s0 \<noteq> ''mask'' \<longrightarrow>
             join nick m c s0 = Inl (ValueError, s0\<lparr>channels := {c}\<rparr>))"
    by (simp add: UsersPlugin_init_def connection_lost_def join_def create_user_def Let_def)
  have accepted: "identifying_method self = ''mask'' \<longrightarrow>
        create_user self m chans = Inr (User_init m chans (mask_host m))
        \<and> (get_user self nick = None \<longrightarrow>
             (\<exists>s'. join nick m c self = Inr s'
                 \<and> get_user s' nick = Some (User_init m [c] (mask_host m))
                 \<and> channels s' = insert c (channels self)))"
    by (simp add: create_user_def join_def get_user_def Let_def update_conv' user_join_def
        User_init_def)
  have refused: "identifying_method self \<noteq> ''mask'' \<longrightarrow>
        create_user self m chans = Inl ValueError
        \<and> (get_user self nick = None \<longrightarrow>
             join nick m c self
               = Inl (ValueError, self\<lparr>channels := insert c (channels self)\<rparr>))
        \<and> (get_user self (mask_nick m) = None \<and> c \<in> channels self \<longrightarrow>
             on_privmsg m c self = Inl (ValueError, self))
        \<and> (get_user self nick = None \<and> c \<in> channels self \<longrightarrow>
             on_who c nick username server self = Inl (ValueError, self))"
    by (simp add: create_user_def join_def on_privmsg_def on_who_def get_user_def Let_def)
  from init accepted refused show ?thesis by blast
qed

theorem identify_by_checked_at_event_time_witness:
  "(\<exists>s0. UsersPlugin_init \<lparr>bot_nick = ''onebot'', identify_by = Some ''nickserv''\<rparr> = Inr s0
        \<and> identifying_method s0 = ''nickserv'' \<and> ''nickserv'' \<noteq> ''mask''
        \<and> channels s0 = {} \<and> active_users s0 = []
        \<and> join ''alice'' (mk_mask ''alice'') ''#a'' s0
            = Inl (ValueError, s0\<lparr>channels := {''#a''}\<rparr>)
        \<and> on_privmsg (mk_mask ''alice'') ''#a'' (s0\<lparr>channels := {''#a''}\<rparr>)
            = Inl (ValueError, s0\<lparr>channels := {''#a''}\<rparr>)
        \<and> on_who ''#a'' ''alice'' ''~alice'' ''example.org'' (s0\<lparr>channels := {''#a''}\<rparr>)
            = Inl (ValueError, s0\<lparr>channels := {''#a''}\<rparr>))
   \<and> (\<exists>s0 s'. UsersPlugin_init onebot = Inr s0 \<and> identifying_method s0 = ''mask''
        \<and> get_user s0 ''alice'' = None
        \<and> create_user s0 (mk_mask ''alice'') [''#a''] = Inr (mk_user ''alice'' [''#a''])
        \<and> join ''alice'' (mk_mask ''alice'') ''#a'' s0 = Inr s'
        \<and> get_user s' ''alice'' = Some (mk_user ''alice'' [''#a''])
        \<and> channels s' = {''#a''})"
proof -
  let ?b = "\<lparr>bot_nick = ''onebot'', identify_by = Some ''nickserv''\<rparr>"
  have neq: "''nickserv'' \<noteq> ''mask''" by simp
  from identify_by_checked_at_event_time
    [where b = ?b and nick = "''alice''" and m = "mk_mask ''alice''" and c = "''#a''"
       and self = "mk_plugin {} []" and chans = "[]"
       and username = "''~alice''" and server = "''example.org''"]
  obtain s0 where init: "UsersPlugin_init ?b = Inr s0"
    and meth: "identifying_method s0 = ''nickserv''"
    and chans: "channels s0 = {}" and users: "active_users s0 = []"
    and j: "join ''alice'' (mk_mask ''alice'') ''#a'' s0
        = Inl (ValueError, s0\<lparr>channels := {''#a''}\<rparr>)"
    by auto
  let ?s1 = "s0\<lparr>channels := {''#a''}\<rparr>"
  have meth1: "identifying_method ?s1 \<noteq> ''mask''" using meth by simp
  have untracked: "get_user ?s1 ''alice'' = None"
    "get_user ?s1 (mask_nick (mk_mask ''alice'')) = None"
    using users by (simp_all add: get_user_def)
  have tracked: "''#a'' \<in> channels ?s1" by simp
  from identify_by_checked_at_event_time
    [where b = ?b and nick = "''alice''" and m = "mk_mask ''alice''" and c = "''#a''"
       and self = ?s1 and chans = "[''#a'']"
       and username = "''~alice''" and server = "''example.org''"]
    meth1 untracked tracked
  have p: "on_privmsg (mk_mask ''alice'') ''#a'' ?s1 = Inl (ValueError, ?s1)"
    and w: "on_who ''#a'' ''alice'' ''~alice'' ''example.org'' ?s1 = Inl (ValueError, ?s1)"
    by blast+
  from identify_by_checked_at_event_time
    [where b = onebot and nick = "''alice''" and m = "mk_mask ''alice''" and c = "''#a''"
       and self = "mk_plugin {} []" and chans = "[]"
       and username = "''~alice''" and server = "''example.org''"]
  obtain t0 where init0: "UsersPlugin_init onebot = Inr t0"
    and meth0: "identifying_method t0 = ''mask''"
    and chans0: "channels t0 = {}" and users0: "active_users t0 = []"
    by (auto simp add: onebot_def)
  have untracked0: "get_user t0 ''alice'' = None" using users0 by (simp add: get_user_def)
  from identify_by_checked_at_event_time
    [where b = onebot and nick = "''alice''" and m = "mk_mask ''alice''" and c = "''#a''"
       and self = t0 and chans = "[''#a'']"
       and username = "''~alice''" and server = "''example.org''"]
    meth0 untracked0
  obtain s' where cu: "create_user t0 (mk_mask ''alice'') [''#a'']
        = Inr (User_init (mk_mask ''alice'') [''#a''] (mask_host (mk_mask ''alice'')))"
    and j0: "join ''alice'' (mk_mask ''alice'') ''#a'' t0 = Inr s'"
    and g0: "get_user s' ''alice''
        = Some (User_init (mk_mask ''alice'') [''#a''] (mask_host (mk_mask ''alice'')))"
    and c0: "channels s' = insert ''#a'' (channels t0)"
    by blast
  have first: "\<exists>s0. UsersPlugin_init ?b = Inr s0
        \<and> identifying_method s0 = ''nickserv'' \<and> ''nickserv'' \<noteq> ''mask''
        \<and> channels s0 = {} \<and> active_users s0 = []
        \<and> join ''alice'' (mk_mask ''alice'') ''#a'' s0
            = Inl (ValueError, s0\<lparr>channels := {''#a''}\<rparr>)
        \<and> on_privmsg (mk_mask ''alice'') ''#a'' (s0\<lparr>channels := {''#a''}\<rparr>)
            = Inl (ValueError, s0\<lparr>channels := {''#a''}\<rparr>)
        \<and> on_who ''#a'' ''alice'' ''~alice'' ''example.org'' (s0\<lparr>channels := {''#a''}\<rparr>)
            = Inl (ValueError, s0\<lparr>channels := {''#a''}\<rparr>)"
    using init meth neq chans users j p w by blast
  have second: "\<exists>s0 s'. UsersPlugin_init onebot = Inr s0 \<and> identifying_method s0 = ''mask''
        \<and> get_user s0 ''alice'' = None
        \<and> create_user s0 (mk_mask ''alice'') [''#a''] = Inr (mk_user ''alice'' [''#a''])
        \<and> join ''alice'' (mk_mask ''alice'') ''#a'' s0 = Inr s'
        \<and> get_user s' ''alice'' = Some (mk_user ''alice'' [''#a''])
        \<and> channels s' = {''#a''}"
    using init0 meth0 untracked0 cu j0 g0 c0 chans0 by (auto simp add: mk_user_def)
  from first second show ?thesis by blast
qed

text \<open>
  C4 (identity stability across a rename). When \<open>old\<close> is tracked and \<open>new\<close> is not,
  after the rename \<open>get_user new\<close> is the record that \<open>old\<close> had, with the nick set to
  \<open>new\<close>: the identity key, the settings document and every setting read through it
  are those of the record before. \<open>get_user old\<close> is absent.
\<close>

theorem rename_keeps_identity:
  assumes "get_user self (mask_nick m) = Some u" and "get_user self new = None"
  shows "get_user (on_new_nick m new self) new = Some (u\<lparr>user_nick := new\<rparr>)
       \<and> get_user (on_new_nick m new self) (mask_nick m) = None
       \<and> getid (u\<lparr>user_nick := new\<rparr>) = getid u
       \<and> get_settings users (u\<lparr>user_nick := new\<rparr>) = get_settings users u
       \<and> get_setting users (u\<lparr>user_nick := new\<rparr>) setting dflt
           = get_setting users u setting dflt"
proof -
  from assms have "mask_nick m \<noteq> new" by auto
  with assms show ?thesis
    by (simp add: on_new_nick_def get_user_def Let_def delete_conv' update_conv'
        getid_def get_settings_def get_setting_def)
qed

theorem rename_keeps_identity_witness:
  "get_user (mk_plugin {''#a''} [(''alice'', mk_user ''alice'' [''#a''])])
       (mask_nick (mk_mask ''alice'')) = Some (mk_user ''alice'' [''#a''])
   \<and> get_user (mk_plugin {''#a''} [(''alice'', mk_user ''alice'' [''#a''])]) ''bob'' = None
   \<and> get_user (on_new_nick (mk_mask ''alice'') ''bob''
         (mk_plugin {''#a''} [(''alice'', mk_user ''alice'' [''#a''])])) ''bob''
       = Some ((mk_user ''alice'' [''#a''])\<lparr>user_nick := ''bob''\<rparr>)
   \<and> get_user (on_new_nick (mk_mask ''alice'') ''bob''
         (mk_plugin {''#a''} [(''alice'', mk_user ''alice'' [''#a''])])) ''alice'' = None
   \<and> getid ((mk_user ''alice'' [''#a''])\<lparr>user_nick := ''bob''\<rparr>) = ''~alice@example.org''"
  using rename_keeps_identity
    [of "mk_plugin {''#a''} [(''alice'', mk_user ''alice'' [''#a''])]" "mk_mask ''alice''"
        "mk_user ''alice'' [''#a'']" "''bob''" "Map.empty" "''lang''" "''en''"]
  by (simp add: get_user_def mk_plugin_def mk_mask_def mk_user_def User_init_def getid_def)

text \<open>
  C5 (channel containment). The invariant does not hold in every reachable state.
  From the empty state, the bot and two users join \<open>#a\<close> and the bot parts \<open>#a\<close>:
  the loop removes the bot's record and the channel in its first iteration, raises
  \<^verbatim>\<open>KeyError\<close> in the second, and never reaches \<open>u2\<close>, whose channel set still holds
  \<open>#a\<close> while no channel is tracked.
\<close>

theorem self_part_breaks_containment:
  "UsersPlugin_init onebot = Inr (mk_plugin {} [])
   \<and> run (mk_plugin {} [])
        [JoinPartQuit (mk_mask ''onebot'') JOIN ''#a'',
         JoinPartQuit (mk_mask ''u1'') JOIN ''#a'',
         JoinPartQuit (mk_mask ''u2'') JOIN ''#a'']
       = mk_plugin {''#a''}
           [(''onebot'', mk_user ''onebot'' [''#a'']), (''u1'', mk_user ''u1'' [''#a'']),
            (''u2'', mk_user ''u2'' [''#a''])]
   \<and> handle (JoinPartQuit (mk_mask ''onebot'') PART ''#a'')
         (mk_plugin {''#a''}
           [(''onebot'', mk_user ''onebot'' [''#a'']), (''u1'', mk_user ''u1'' [''#a'']),
            (''u2'', mk_user ''u2'' [''#a''])])
       = Inl (KeyError, mk_plugin {} [(''u2'', mk_user ''u2'' [''#a''])])
   \<and> run (mk_plugin {} [])
        [JoinPartQuit (mk_mask ''onebot'') JOIN ''#a'',
         JoinPartQuit (mk_mask ''u1'') JOIN ''#a'',
         JoinPartQuit (mk_mask ''u2'') JOIN ''#a'',
         JoinPartQuit (mk_mask ''onebot'') PART ''#a'']
       = mk_plugin {} [(''u2'', mk_user ''u2'' [''#a''])]
   \<and> \<not> channel_containment (mk_plugin {} [(''u2'', mk_user ''u2'' [''#a''])])"
  by (simp add: UsersPlugin_init_def connection_lost_def on_join_part_quit_def join_def
      part_def create_user_def mk_plugin_def onebot_def mk_user_def mk_mask_def
      User_init_def user_join_def user_part_def still_in_channels_def
      channel_containment_def Let_def)

theorem self_part_breaks_containment_witness:
  "get_user (run (mk_plugin {} [])
        [JoinPartQuit (mk_mask ''onebot'') JOIN ''#a'',
         JoinPartQuit (mk_mask ''u1'') JOIN ''#a'',
         JoinPartQuit (mk_mask ''u2'') JOIN ''#a'',
         JoinPartQuit (mk_mask ''onebot'') PART ''#a'']) ''u2''
     = Some (mk_user ''u2'' [''#a''])
   \<and> ''#a'' \<in> user_channels (mk_user ''u2'' [''#a''])
   \<and> ''#a'' \<notin> channels (run (mk_plugin {} [])
        [JoinPartQuit (mk_mask ''onebot'') JOIN ''#a'',
         JoinPartQuit (mk_mask ''u1'') JOIN ''#a'',
         JoinPartQuit (mk_mask ''u2'') JOIN ''#a'',
         JoinPartQuit (mk_mask ''onebot'') PART ''#a''])"
proof -
  from self_part_breaks_containment
  have final: "run (mk_plugin {} [])
        [JoinPartQuit (mk_mask ''onebot'') JOIN ''#a'',
         JoinPartQuit (mk_mask ''u1'') JOIN ''#a'',
         JoinPartQuit (mk_mask ''u2'') JOIN ''#a'',
         JoinPartQuit (mk_mask ''onebot'') PART ''#a'']
       = mk_plugin {} [(''u2'', mk_user ''u2'' [''#a''])]"
    by blast
  show ?thesis
    unfolding final by (simp add: get_user_def mk_plugin_def mk_user_def User_init_def)
qed

text \<open>
  C6 (WHO-reply gating). A WHO reply for a channel outside the tracked channel set
  returns normally and leaves the whole plugin state as it was: no record is created
  for the nick and no record gains the channel.
\<close>

theorem on_who_untracked_channel:
  "channel \<notin> channels self \<Longrightarrow> on_who channel nick username server self = Inr self"
  by (simp add: on_who_def)

theorem on_who_untracked_channel_witness:
  "''#c'' \<notin> channels (mk_plugin {''#a''} [(''alice'', mk_user ''alice'' [''#a''])])
   \<and> on_who ''#c'' ''carol'' ''u'' ''host''
         (mk_plugin {''#a''} [(''alice'', mk_user ''alice'' [''#a''])])
       = Inr (mk_plugin {''#a''} [(''alice'', mk_user ''alice'' [''#a''])])
   \<and> get_user (mk_plugin {''#a''} [(''alice'', mk_user ''alice'' [''#a''])]) ''carol'' = None"
  using on_who_untracked_channel
    [of "''#c''" "mk_plugin {''#a''} [(''alice'', mk_user ''alice'' [''#a''])]"
        "''carol''" "''u''" "''host''"]
  by (simp add: mk_plugin_def get_user_def)

text \<open>
  C7 (connection reset). After \<open>connection_lost\<close>, and after a quit of the bot's own
  nick, which gives the same state, no channel and no user is tracked, so \<open>get_user\<close>
  is absent for every nick. In that state a part (of any nick, the bot's included)
  and a WHO reply return normally and leave the state empty, whatever the channel;
  a join puts its channel back into the tracked channels.
\<close>

theorem connection_reset:
  "channels (connection_lost self) = {} \<and> active_users (connection_lost self) = []
   \<and> quit (bot_nick (irc_bot self)) m self = connection_lost self
   \<and> get_user (connection_lost self) nick = None
   \<and> part nick m' channel (connection_lost self) = Inr (connection_lost self)
   \<and> on_who channel nick username server (connection_lost self) = Inr (connection_lost self)
   \<and> channel \<in> channels (state_of (join nick m' channel (connection_lost self)))"
  by (simp add: connection_lost_def quit_def get_user_def part_def on_who_def join_def
      create_user_def Let_def)

text \<open>
  C8 (join is idempotent). For a tracked nick, a join returns normally, and a second
  join with the same nick and channel returns the state of the first. After it the
  channel set of the user is the one before with the channel added, the other nicks
  have the records they had, and the channel is tracked.
\<close>

theorem join_twice:
  assumes "get_user self nick = Some u"
  shows "\<exists>s1. join nick m c self = Inr s1 \<and> join nick m c s1 = Inr s1
          \<and> get_user s1 nick = Some (u\<lparr>user_channels := insert c (user_channels u)\<rparr>)
          \<and> channels s1 = insert c (channels self)
          \<and> (\<forall>n. n \<noteq> nick \<longrightarrow> get_user s1 n = get_user self n)"
  using assms
  by (simp add: join_def get_user_def Let_def update_conv' user_join_def)

theorem join_twice_witness:
  "get_user (mk_plugin {''#a''}
       [(''alice'', mk_user ''alice'' [''#a'']), (''bob'', mk_user ''bob'' [''#a''])]) ''alice''
     = Some (mk_user ''alice'' [''#a''])
   \<and> ''bob'' \<noteq> ''alice''
   \<and> join ''alice'' (mk_mask ''alice'') ''#b''
         (mk_plugin {''#a''}
           [(''alice'', mk_user ''alice'' [''#a'']), (''bob'', mk_user ''bob'' [''#a''])])
       = Inr (mk_plugin {''#a'', ''#b''}
           [(''alice'', mk_user ''alice'' [''#a'', ''#b'']), (''bob'', mk_user ''bob'' [''#a''])])
   \<and> join ''alice'' (mk_mask ''alice'') ''#b''
         (mk_plugin {''#a'', ''#b''}
           [(''alice'', mk_user ''alice'' [''#a'', ''#b'']), (''bob'', mk_user ''bob'' [''#a''])])
       = Inr (mk_plugin {''#a'', ''#b''}
           [(''alice'', mk_user ''alice'' [''#a'', ''#b'']), (''bob'', mk_user ''bob'' [''#a''])])
   \<and> get_user (mk_plugin {''#a'', ''#b''}
           [(''alice'', mk_user ''alice'' [''#a'', ''#b'']), (''bob'', mk_user ''bob'' [''#a''])])
         ''bob''
       = Some (mk_user ''bob'' [''#a''])"
  using join_twice
    [of "mk_plugin {''#a''}
           [(''alice'', mk_user ''alice'' [''#a'']), (''bob'', mk_user ''bob'' [''#a''])]"
        "''alice''" "mk_user ''alice'' [''#a'']" "mk_mask ''alice''" "''#b''"]
  by (auto simp add: get_user_def mk_plugin_def mk_user_def User_init_def join_def
      user_join_def Let_def)

text \<open>
  C9 (a kick is a part of the target). \<open>on_kick\<close> gives the result, state and error
  alike, of \<open>part\<close> for the nick of the target in the same channel; the mask of the
  kicker does not enter it.
\<close>

theorem kick_is_part:
  "on_kick kicker target channel self = part (mask_nick target) m channel self
   \<and> on_kick kicker target channel self = on_kick kicker' target channel self"
  by (simp add: on_kick_def part_def)

text \<open>
  C10 (rename to the same nick). When the nick of the renamed mask is tracked and the
  new nick is the same, the handler stores the record under the nick and then deletes
  that key: the nick is no longer tracked, and the other entries are as before.
\<close>

theorem rename_to_same_nick:
  assumes "get_user self (mask_nick m) = Some u"
  shows "get_user (on_new_nick m (mask_nick m) self) (mask_nick m) = None
       \<and> on_new_nick m (mask_nick m) self
           = self\<lparr>active_users := AList.delete (mask_nick m) (active_users self)\<rparr>"
  using assms
  by (simp add: on_new_nick_def get_user_def Let_def delete_conv' delete_update_same)

theorem rename_to_same_nick_witness:
  "get_user (mk_plugin {''#a''} [(''alice'', mk_user ''alice'' [''#a''])])
       (mask_nick (mk_mask ''alice'')) = Some (mk_user ''alice'' [''#a''])
   \<and> get_user (on_new_nick (mk_mask ''alice'') (mask_nick (mk_mask ''alice''))
         (mk_plugin {''#a''} [(''alice'', mk_user ''alice'' [''#a''])])) ''alice'' = None
   \<and> on_new_nick (mk_mask ''alice'') ''alice''
         (mk_plugin {''#a''} [(''alice'', mk_user ''alice'' [''#a''])])
       = mk_plugin {''#a''} []"
  using rename_to_same_nick
    [of "mk_plugin {''#a''} [(''alice'', mk_user ''alice'' [''#a''])]" "mk_mask ''alice''"
        "mk_user ''alice'' [''#a'']"]
  by (simp add: get_user_def mk_plugin_def mk_mask_def)

end
